theory Spec2Isabelle
  imports Complex_Main "HOL-Library.Log_Nat"
begin

section \<open>Python floats\<close>

text \<open>
  The amounts and balances of \<^verbatim>\<open>app/schemas.py\<close> are Python \<^verbatim>\<open>float\<close>s and the
  columns of \<^verbatim>\<open>app/models.py\<close> are \<^verbatim>\<open>Float\<close>: IEEE-754 binary64 numbers. Every
  finite binary64 number is a whole multiple of the least subnormal, \<^verbatim>\<open>2**-1074\<close>,
  so \<open>Finite k\<close> stands for \<open>k\<close> times \<^verbatim>\<open>2**-1074\<close>. It is a binary64 number when
  \<open>k\<close> has at most 53 significant bits and its value lies below \<^verbatim>\<open>2**1024\<close>, that
  is \<open>k\<close> below \<open>2 ^ 2098\<close> (\<open>representable\<close>). The
  two zeros are one value here: they compare equal, and the program only adds,
  subtracts and compares.
\<close>

datatype pyfloat = Finite int | PosInf | NegInf | NaN

definition representable :: "int \<Rightarrow> bool" where
  "representable k \<longleftrightarrow> \<bar>k\<bar> < 2 ^ 2098 \<and> 2 ^ nat (bitlen \<bar>k\<bar> - 53) dvd k"

definition is_double :: "pyfloat \<Rightarrow> bool" where
  "is_double x = (case x of Finite k \<Rightarrow> representable k | _ \<Rightarrow> True)"

text \<open>Rounding a magnitude to 53 significant bits, to nearest and ties to even: with
  \<open>s\<close> bits too many, the last \<open>s\<close> bits \<open>r\<close> are dropped and the rest \<open>n\<close> goes up by
  one when \<open>r\<close> is above the half, or at the half with \<open>n\<close> odd.\<close>

definition round53 :: "int \<Rightarrow> int" where
  "round53 a =
    (let s = bitlen a - 53 in
     if s \<le> 0 then a
     else
       let q = 2 ^ nat s; n = a div q; r = a mod q; h = q div 2
       in (if r < h \<or> (r = h \<and> even n) then n else n + 1) * q)"

text \<open>The result of an operation whose exact value is \<open>k\<close> units: rounded, and an
  infinity when the rounded magnitude reaches \<^verbatim>\<open>2**1024\<close>.\<close>

definition round_units :: "int \<Rightarrow> pyfloat" where
  "round_units k =
    (let y = round53 \<bar>k\<bar> in
     if 2 ^ 2098 \<le> y then (if k < 0 then NegInf else PosInf)
     else Finite (if k < 0 then - y else y))"

text \<open>\<^verbatim>\<open>x + y\<close> and \<open>x - y\<close> on floats.\<close>

fun fadd :: "pyfloat \<Rightarrow> pyfloat \<Rightarrow> pyfloat" where
  "fadd NaN y = NaN"
| "fadd x NaN = NaN"
| "fadd PosInf NegInf = NaN"
| "fadd NegInf PosInf = NaN"
| "fadd PosInf y = PosInf"
| "fadd x PosInf = PosInf"
| "fadd NegInf y = NegInf"
| "fadd x NegInf = NegInf"
| "fadd (Finite a) (Finite b) = round_units (a + b)"

fun fsub :: "pyfloat \<Rightarrow> pyfloat \<Rightarrow> pyfloat" where
  "fsub NaN y = NaN"
| "fsub x NaN = NaN"
| "fsub PosInf PosInf = NaN"
| "fsub NegInf NegInf = NaN"
| "fsub PosInf y = PosInf"
| "fsub x NegInf = PosInf"
| "fsub NegInf y = NegInf"
| "fsub x PosInf = NegInf"
| "fsub (Finite a) (Finite b) = round_units (a - b)"

text \<open>\<^verbatim>\<open>x < y\<close> and \<^verbatim>\<open>x >= y\<close> on floats: false whenever a NaN is compared.\<close>

fun flt :: "pyfloat \<Rightarrow> pyfloat \<Rightarrow> bool" where
  "flt NaN y = False"
| "flt x NaN = False"
| "flt x NegInf = False"
| "flt NegInf y = True"
| "flt PosInf y = False"
| "flt x PosInf = True"
| "flt (Finite a) (Finite b) = (a < b)"

fun fge :: "pyfloat \<Rightarrow> pyfloat \<Rightarrow> bool" where
  "fge NaN y = False"
| "fge x NaN = False"
| "fge x NegInf = True"
| "fge NegInf y = False"
| "fge PosInf y = True"
| "fge x PosInf = False"
| "fge (Finite a) (Finite b) = (b \<le> a)"

text \<open>The float whose value is the whole number \<open>n\<close>; a binary64 number when
  \<open>n\<close> has at most 53 significant bits.\<close>

definition pyfloat_of_int :: "int \<Rightarrow> pyfloat" where
  "pyfloat_of_int n = Finite (n * 2 ^ 1074)"

section \<open>Data model\<close>

text \<open>A \<^verbatim>\<open>datetime\<close> is a reading of the clock, a natural number of ticks.\<close>

type_synonym datetime = nat

text \<open>
  \<^verbatim>\<open>schemas.CreateAccount\<close>, and \<^verbatim>\<open>models.AccountModel\<close> which adds the primary key
  \<^verbatim>\<open>id\<close> (here \<open>acc_id\<close>). The request carries a \<^verbatim>\<open>float\<close>; the column is a
  nullable \<^verbatim>\<open>Float\<close>, read back as a float or as \<^verbatim>\<open>None\<close>: the type parameter is
  \<open>pyfloat\<close> in a request and \<open>pyfloat option\<close> in a row. Python integers are
  unbounded; an \<^verbatim>\<open>Integer\<close> column holds 64 bits (\<open>int64\<close> below).
\<close>

record 'f CreateAccount =
  name :: string
  available_cash :: 'f

record 'f AccountModel = "'f CreateAccount" +
  acc_id :: int

text \<open>\<^verbatim>\<open>schemas.CreateTransaction\<close>, and \<^verbatim>\<open>models.TransactionModel\<close> which adds the
  primary key \<^verbatim>\<open>id\<close> (here \<open>txn_id\<close>), the two nullable times and the flag.\<close>

record 'f CreateTransaction =
  cash_amount :: 'f
  source_account_id :: int
  destination_account_id :: int

record 'f TransactionModel = "'f CreateTransaction" +
  txn_id :: int
  executed_time :: "datetime option"
  registered_time :: "datetime option"
  success :: bool

type_synonym account_row = "pyfloat option AccountModel"
type_synonym transaction_row = "pyfloat option TransactionModel"

text \<open>The committed contents of the two tables, rows in insertion order.\<close>

record database =
  accounts :: "account_row list"
  transactions :: "transaction_row list"

section \<open>The store\<close>

text \<open>The store is the SQLite database of the repository's tests. An integer bound to
  a statement must fit 64 bits, or the driver raises \<^verbatim>\<open>OverflowError\<close> (which the
  ORM may wrap); a NaN bound to a \<^verbatim>\<open>Float\<close> column is stored as \<^verbatim>\<open>NULL\<close>.
  The ids in a table are Python integers within that range; the rows of a request's
  own making are, and the theorems ask it of the account table (\<open>primary_key\<close>).\<close>

definition int64 :: "int \<Rightarrow> bool" where
  "int64 i \<longleftrightarrow> - (2 ^ 63) \<le> i \<and> i < 2 ^ 63"

definition store_float :: "pyfloat \<Rightarrow> pyfloat option" where
  "store_float x = (if x = NaN then None else Some x)"

text \<open>An \<^verbatim>\<open>autoincrement\<close> integer primary key: 1 in an empty table, else one more
  than the largest id of the table.\<close>

fun next_id :: "int list \<Rightarrow> int" where
  "next_id [] = 1"
| "next_id (i # ids) = fold max ids i + 1"

text \<open>\<^verbatim>\<open>Query.one()\<close> returns the only row of a result and raises
  \<^verbatim>\<open>NoResultFound\<close> on none, \<^verbatim>\<open>MultipleResultsFound\<close> on several.\<close>

datatype py_error = NoResultFound | MultipleResultsFound | OverflowError | TypeError

fun one :: "'a list \<Rightarrow> py_error + 'a" where
  "one [] = Inl NoResultFound"
| "one [x] = Inr x"
| "one (x # y # zs) = Inl MultipleResultsFound"

text \<open>\<^verbatim>\<open>db.query(AccountModel).filter(AccountModel.id == i)\<close>\<close>

definition query_account :: "int \<Rightarrow> account_row list \<Rightarrow> account_row list" where
  "query_account i rows = filter (\<lambda>a. acc_id a = i) rows"

text \<open>The flush of a changed \<^verbatim>\<open>available_cash\<close> attribute: an \<^verbatim>\<open>UPDATE\<close> of the
  row with that primary key.\<close>

definition update_cash :: "int \<Rightarrow> pyfloat option \<Rightarrow> account_row list \<Rightarrow> account_row list" where
  "update_cash i c rows = map (\<lambda>a. if acc_id a = i then a\<lparr>available_cash := c\<rparr> else a) rows"

text \<open>The flush of the changed transaction object, again by primary key.\<close>

definition update_transaction ::
  "transaction_row \<Rightarrow> transaction_row list \<Rightarrow> transaction_row list" where
  "update_transaction t rows = map (\<lambda>r. if txn_id r = txn_id t then t else r) rows"

section \<open>The operations\<close>

text \<open>What a request handler can end with besides its return value: an
  \<^verbatim>\<open>HTTPException(status, detail)\<close> it raises, or an exception that it does not
  catch.\<close>

datatype failure = HTTPException nat string | Uncaught py_error

abbreviation InvalidAmount :: failure where
  "InvalidAmount \<equiv> HTTPException 400 ''Cash amount must be positive.''"

abbreviation SameAccount :: failure where
  "SameAccount \<equiv> HTTPException 400 ''Source and destination accounts must be different.''"

abbreviation SourceNotFound :: failure where
  "SourceNotFound \<equiv> HTTPException 404 ''Source account not found.''"

abbreviation DestinationNotFound :: failure where
  "DestinationNotFound \<equiv> HTTPException 404 ''Destination account not found.''"

abbreviation InsufficientFunds :: failure where
  "InsufficientFunds \<equiv> HTTPException 400 ''Insufficient funds in source account.''"

abbreviation InternalError :: "string \<Rightarrow> failure" where
  "InternalError e \<equiv>
     HTTPException 500 (''An error occurred while processing the transaction: '' @ e)"

text \<open>The text of the \<^verbatim>\<open>TypeError\<close> of line 81 when the destination balance is
  \<^verbatim>\<open>None\<close>.\<close>

definition none_plus_float :: string where
  "none_plus_float =
     ''unsupported operand type(s) for +=: '' @ [CHR 0x27] @ ''NoneType'' @ [CHR 0x27] @
     '' and '' @ [CHR 0x27] @ ''float'' @ [CHR 0x27]"

text \<open>A fault of the store inside the \<^verbatim>\<open>try\<close> block of lines 79 to 86, with the text
  of the exception: at the commit of line 84, at the refresh of line 85 or at the close
  of line 86.\<close>

datatype fault = CommitFault string | RefreshFault string | CloseFault string

text \<open>The result of one call of \<^verbatim>\<open>process_transaction\<close>: the response; the tables
  as each commit of the call left them, in order; the committed tables once the request
  has ended; and the ids of the account rows the session queried with
  \<^verbatim>\<open>with_for_update()\<close> and found, in the order of the queries.\<close>

record outcome =
  response :: "failure + transaction_row"
  commits :: "database list"
  committed :: database
  locked :: "int list"

text \<open>
  The row of lines 41 to 47 as the refresh of line 47 reads it back: built from the
  request with \<^verbatim>\<open>success=False\<close>, a NaN amount stored as \<^verbatim>\<open>NULL\<close>.
  \<^verbatim>\<open>registered_time\<close> is not given, so the column default applies:
  \<^verbatim>\<open>default=datetime.now()\<close> in \<^verbatim>\<open>models.py\<close> is an expression evaluated when the
  class body runs, so the default is that one value, the parameter
  \<open>registered_default\<close>, for every row.
\<close>

definition new_transaction_row ::
  "datetime \<Rightarrow> pyfloat CreateTransaction \<Rightarrow> database \<Rightarrow> transaction_row" where
  "new_transaction_row registered_default transaction db =
     \<lparr>cash_amount = store_float (cash_amount transaction),
      source_account_id = source_account_id transaction,
      destination_account_id = destination_account_id transaction,
      txn_id = next_id (map txn_id (transactions db)),
      executed_time = None,
      registered_time = Some registered_default,
      success = False\<rparr>"

text \<open>
  \<^verbatim>\<open>process_transaction\<close>, lines 30 to 95.

  Lines 41 to 47 add the new row, commit and refresh it. The commit raises
  \<^verbatim>\<open>OverflowError\<close>, which nothing catches, when an id of the request does not fit
  64 bits, and then nothing is persisted. The foreign keys are not enforced: the
  repository's tests get 404 for an account id that is in no row.

  Lines 49 to 76 are the checks and the two queries. A query that finds a row locks it;
  one that finds several (no primary key) locks them and \<^verbatim>\<open>one()\<close> raises, which
  nothing catches.

  Line 78 compares the source balance with the amount: a balance that is \<^verbatim>\<open>None\<close>
  raises \<^verbatim>\<open>TypeError\<close>, outside the \<^verbatim>\<open>try\<close>. Lines 79 to 86 change the two
  balances (a destination balance that is \<^verbatim>\<open>None\<close> raises \<^verbatim>\<open>TypeError\<close> at line
  81), mark the row, commit, refresh and close. \<open>now\<close> is what \<^verbatim>\<open>datetime.now()\<close>
  returns at line 83; \<open>fault\<close> is the call of the store in the block that raises, if
  any. The handler of lines 87 to 92 rolls back what is pending and answers 500 with
  the text of the exception: after a fault of the commit nothing of the block is
  committed, after a fault of the refresh or of the close all of it is. Faults of the
  store outside the block are not modelled.
\<close>

definition process_transaction ::
  "datetime \<Rightarrow> datetime \<Rightarrow> fault option \<Rightarrow> pyfloat CreateTransaction \<Rightarrow> database \<Rightarrow> outcome" where
  "process_transaction registered_default now fault transaction db =
    (if int64 (source_account_id transaction) \<and>
        int64 (destination_account_id transaction) then
     let new_transaction = new_transaction_row registered_default transaction db;
         db1 = db\<lparr>transactions := transactions db @ [new_transaction]\<rparr>
     in
     if flt (cash_amount transaction) (Finite 0) then
       \<lparr>response = Inl InvalidAmount, commits = [db1], committed = db1, locked = []\<rparr>
     else
       let source_id = source_account_id transaction;
           destination_id = destination_account_id transaction
       in
       if source_id = destination_id then
         \<lparr>response = Inl SameAccount, commits = [db1], committed = db1, locked = []\<rparr>
       else
         case one (query_account source_id (accounts db1)) of
           Inl e \<Rightarrow>
             (if e = NoResultFound then
                \<lparr>response = Inl SourceNotFound, commits = [db1], committed = db1,
                 locked = []\<rparr>
              else
                \<lparr>response = Inl (Uncaught e), commits = [db1], committed = db1,
                 locked = [source_id]\<rparr>)
         | Inr source_account \<Rightarrow>
            (case one (query_account destination_id (accounts db1)) of
               Inl e \<Rightarrow>
                 (if e = NoResultFound then
                    \<lparr>response = Inl DestinationNotFound, commits = [db1], committed = db1,
                     locked = [source_id]\<rparr>
                  else
                    \<lparr>response = Inl (Uncaught e), commits = [db1], committed = db1,
                     locked = [source_id, destination_id]\<rparr>)
             | Inr destination_account \<Rightarrow>
                (case available_cash source_account of
                   None \<Rightarrow>
                     \<lparr>response = Inl (Uncaught TypeError), commits = [db1], committed = db1,
                      locked = [source_id, destination_id]\<rparr>
                 | Some source_cash \<Rightarrow>
                    if fge source_cash (cash_amount transaction) then
                      (case available_cash destination_account of
                         None \<Rightarrow>
                           \<lparr>response = Inl (InternalError none_plus_float), commits = [db1],
                            committed = db1, locked = [source_id, destination_id]\<rparr>
                       | Some destination_cash \<Rightarrow>
                          (let executed = new_transaction
                                 \<lparr>success := True, executed_time := Some now\<rparr>;
                               db2 =
                                 \<lparr>accounts =
                                    update_cash destination_id
                                      (store_float
                                        (fadd destination_cash (cash_amount transaction)))
                                      (update_cash source_id
                                        (store_float
                                          (fsub source_cash (cash_amount transaction)))
                                        (accounts db1)),
                                  transactions =
                                    update_transaction executed (transactions db1)\<rparr>
                           in
                           case fault of
                             Some (CommitFault e) \<Rightarrow>
                               \<lparr>response = Inl (InternalError e), commits = [db1],
                                committed = db1, locked = [source_id, destination_id]\<rparr>
                           | Some (RefreshFault e) \<Rightarrow>
                               \<lparr>response = Inl (InternalError e), commits = [db1, db2],
                                committed = db2, locked = [source_id, destination_id]\<rparr>
                           | Some (CloseFault e) \<Rightarrow>
                               \<lparr>response = Inl (InternalError e), commits = [db1, db2],
                                committed = db2, locked = [source_id, destination_id]\<rparr>
                           | None \<Rightarrow>
                               \<lparr>response = Inr executed, commits = [db1, db2],
                                committed = db2, locked = [source_id, destination_id]\<rparr>))
                    else
                      \<lparr>response = Inl InsufficientFunds, commits = [db1], committed = db1,
                       locked = [source_id, destination_id]\<rparr>))
     else
       \<lparr>response = Inl (Uncaught OverflowError), commits = [], committed = db, locked = []\<rparr>)"

text \<open>\<^verbatim>\<open>create_account\<close>, lines 114 to 130: the row is built from the request as it
  is, added and committed; the request is returned.\<close>

definition create_account ::
  "pyfloat CreateAccount \<Rightarrow> database \<Rightarrow> pyfloat CreateAccount \<times> database" where
  "create_account account db =
    (let new_account =
           \<lparr>name = name account,
            available_cash = store_float (available_cash account),
            acc_id = next_id (map acc_id (accounts db))\<rparr>
     in (account, db\<lparr>accounts := accounts db @ [new_account]\<rparr>))"

text \<open>A sequence of requests, each with its clock reading and the fault of its
  \<^verbatim>\<open>try\<close> block, handled one after the other by one process (one
  \<open>registered_default\<close>).\<close>

fun process_all ::
  "datetime \<Rightarrow> (datetime \<times> fault option \<times> pyfloat CreateTransaction) list \<Rightarrow>
     database \<Rightarrow> database" where
  "process_all registered_default [] db = db"
| "process_all registered_default ((now, fault, transaction) # rest) db =
     process_all registered_default rest
       (committed (process_transaction registered_default now fault transaction db))"

text \<open>The largest power of two among the doubles, \<^verbatim>\<open>2.0**1023\<close>.\<close>

definition huge_float :: pyfloat where
  "huge_float = pyfloat_of_int (2 ^ 1023)"

text \<open>The accounts of the repository's tests: Alice, Bob and Charlie.\<close>

definition test_accounts :: "account_row list" where
  "test_accounts =
     [\<lparr>name = ''Alice'', available_cash = Some (pyfloat_of_int 1000), acc_id = 1\<rparr>,
      \<lparr>name = ''Bob'', available_cash = Some (pyfloat_of_int 500), acc_id = 2\<rparr>,
      \<lparr>name = ''Charlie'', available_cash = Some (pyfloat_of_int 300), acc_id = 3\<rparr>]"

definition test_db :: database where
  "test_db = \<lparr>accounts = test_accounts, transactions = []\<rparr>"

text \<open>Alice next to an account that holds \<^verbatim>\<open>1e16\<close>, and two accounts that hold
  \<^verbatim>\<open>2.0**1023\<close> each.\<close>

definition whale_db :: database where
  "whale_db =
     \<lparr>accounts =
        [\<lparr>name = ''Alice'', available_cash = Some (pyfloat_of_int 1000), acc_id = 1\<rparr>,
         \<lparr>name = ''Whale'', available_cash = Some (pyfloat_of_int 10000000000000000),
          acc_id = 2\<rparr>],
      transactions = []\<rparr>"

definition huge_db :: database where
  "huge_db =
     \<lparr>accounts =
        [\<lparr>name = ''Ann'', available_cash = Some huge_float, acc_id = 1\<rparr>,
         \<lparr>name = ''Ben'', available_cash = Some huge_float, acc_id = 2\<rparr>],
      transactions = []\<rparr>"

text \<open>The account ids are the primary key of an \<^verbatim>\<open>Integer\<close> column.\<close>

definition primary_key :: "account_row list \<Rightarrow> bool" where
  "primary_key rows \<longleftrightarrow> distinct (map acc_id rows) \<and> list_all (\<lambda>a. int64 (acc_id a)) rows"

text \<open>The invariant of the ledger: every balance is a float at or above 0.\<close>

definition nonneg_balances :: "database \<Rightarrow> bool" where
  "nonneg_balances db =
     list_all (\<lambda>a. case available_cash a of None \<Rightarrow> False | Some x \<Rightarrow> fge x (Finite 0))
       (accounts db)"

text \<open>The exact sum of the finite balances, in units of \<^verbatim>\<open>2**-1074\<close>.\<close>

definition total_cash :: "database \<Rightarrow> int" where
  "total_cash db =
     sum_list (map (\<lambda>a. case available_cash a of Some (Finite k) \<Rightarrow> k | _ \<Rightarrow> 0) (accounts db))"

section \<open>Facts about floats\<close>

lemma round53_nonneg: "0 \<le> a \<Longrightarrow> 0 \<le> round53 a"
  by (simp add: round53_def Let_def pos_imp_zdiv_nonneg_iff)

lemma round53_small: "a < 2 ^ 53 \<Longrightarrow> round53 a = a"
proof -
  assume "a < 2 ^ 53"
  then have "bitlen a \<le> 53"
    by (simp add: bitlen_le_iff_power)
  then show ?thesis by (simp add: round53_def)
qed

lemma round53_dvd:
  assumes "2 ^ nat (bitlen a - 53) dvd a"
  shows "round53 a = a"
proof (cases "bitlen a - 53 \<le> 0")
  case True
  then show ?thesis by (simp add: round53_def)
next
  case False
  let ?q = "(2::int) ^ nat (bitlen a - 53)"
  from False have "1 \<le> nat (bitlen a - 53)" by simp
  then have "(2::int) ^ 1 \<le> ?q" by (intro power_increasing) simp_all
  then have half: "0 < ?q div 2" by simp
  from assms have "a mod ?q = 0" by simp
  moreover from assms have "a div ?q * ?q = a" by simp
  ultimately show ?thesis
    using False half by (simp add: round53_def Let_def)
qed

lemma round_units_representable: "representable k \<Longrightarrow> round_units k = Finite k"
proof -
  assume r: "representable k"
  then have "2 ^ nat (bitlen \<bar>k\<bar> - 53) dvd \<bar>k\<bar>"
    by (simp add: representable_def)
  then have "round53 \<bar>k\<bar> = \<bar>k\<bar>" by (rule round53_dvd)
  with r show ?thesis by (auto simp add: round_units_def representable_def Let_def)
qed

lemma round53_scale:
  assumes "0 < a"
  shows "round53 (a * 2 ^ e) = round53 a * 2 ^ e"
proof -
  have bl: "bitlen (a * 2 ^ e) = bitlen a + int e"
    using assms by (rule bitlen_pow2)
  show ?thesis
  proof (cases "bitlen a - 53 \<le> 0")
    case True
    then have small: "round53 a = a" by (simp add: round53_def)
    have "nat (bitlen (a * 2 ^ e) - 53) \<le> e"
      using True bl by simp
    then have "(2::int) ^ nat (bitlen (a * 2 ^ e) - 53) dvd 2 ^ e"
      by (rule le_imp_power_dvd)
    then have "2 ^ nat (bitlen (a * 2 ^ e) - 53) dvd a * 2 ^ e"
      by (rule dvd_mult)
    then have "round53 (a * 2 ^ e) = a * 2 ^ e" by (rule round53_dvd)
    with small show ?thesis by simp
  next
    case False
    define s where "s = nat (bitlen a - 53)"
    define q where "q = (2::int) ^ s"
    define c where "c = (2::int) ^ e"
    from False have s1: "1 \<le> s" by (simp add: s_def)
    have c0: "0 < c" by (simp add: c_def)
    have s_big: "nat (bitlen (a * 2 ^ e) - 53) = s + e"
      using False bl by (simp add: s_def nat_add_distrib)
    have q_big: "(2::int) ^ (s + e) = q * c"
      by (simp add: q_def c_def power_add)
    have q_even: "q = 2 * 2 ^ (s - 1)"
      using s1 by (simp add: q_def power_eq_if)
    have h_big: "(q * c) div 2 = (q div 2) * c"
      by (simp add: q_even)
    have d: "(a * c) div (q * c) = a div q"
      using c0 by simp
    have m: "(a * c) mod (q * c) = (a mod q) * c"
      using c0 by simp
    have lt: "(a mod q) * c < (q div 2) * c \<longleftrightarrow> a mod q < q div 2"
      using c0 by simp
    have eq: "(a mod q) * c = (q div 2) * c \<longleftrightarrow> a mod q = q div 2"
      using c0 by simp
    have step: "round53 (a * c) =
        (if (a * c) mod (q * c) < (q * c) div 2 \<or>
            ((a * c) mod (q * c) = (q * c) div 2 \<and> even ((a * c) div (q * c)))
         then (a * c) div (q * c) else (a * c) div (q * c) + 1) * (q * c)"
      using False bl s_big
      by (simp add: round53_def Let_def c_def [symmetric] q_big)
    have big: "round53 (a * c) =
        (if a mod q < q div 2 \<or> (a mod q = q div 2 \<and> even (a div q))
         then a div q else a div q + 1) * (q * c)"
      unfolding step d m h_big lt eq ..
    have small: "round53 a =
        (if a mod q < q div 2 \<or> (a mod q = q div 2 \<and> even (a div q))
         then a div q else a div q + 1) * q"
      using False by (simp add: round53_def Let_def s_def [symmetric] q_def [symmetric])
    show ?thesis
      unfolding c_def [symmetric] big small by simp
  qed
qed

lemma representable_scaled:
  assumes n: "\<bar>n\<bar> < 2 ^ 53" and e: "e \<le> 2045"
  shows "representable (n * 2 ^ e)"
proof (cases "n = 0")
  case True
  then show ?thesis by (simp add: representable_def)
next
  case False
  then have pos: "0 < \<bar>n\<bar>" by simp
  have abs_eq: "\<bar>n * 2 ^ e\<bar> = \<bar>n\<bar> * 2 ^ e" by (simp add: abs_mult)
  have bl: "bitlen (\<bar>n\<bar> * 2 ^ e) = bitlen \<bar>n\<bar> + int e"
    using pos by (rule bitlen_pow2)
  from n have "bitlen \<bar>n\<bar> \<le> 53" by (simp add: bitlen_le_iff_power)
  then have "nat (bitlen (\<bar>n\<bar> * 2 ^ e) - 53) \<le> e" using bl by simp
  then have "(2::int) ^ nat (bitlen (\<bar>n\<bar> * 2 ^ e) - 53) dvd 2 ^ e"
    by (rule le_imp_power_dvd)
  then have dvd: "2 ^ nat (bitlen \<bar>n * 2 ^ e\<bar> - 53) dvd n * 2 ^ e"
    unfolding abs_eq by (rule dvd_mult)
  have "\<bar>n\<bar> * 2 ^ e < 2 ^ 53 * 2 ^ e"
    using n by (simp add: mult_strict_right_mono)
  also have "\<dots> = (2::int) ^ (53 + e)" by (simp only: power_add)
  also have "\<dots> \<le> 2 ^ 2098"
    using e by (intro power_increasing) simp_all
  finally have "\<bar>n * 2 ^ e\<bar> < 2 ^ 2098" unfolding abs_eq .
  with dvd show ?thesis unfolding representable_def by blast
qed

lemma round_units_of_int:
  "\<bar>n\<bar> < 2 ^ 53 \<Longrightarrow> round_units (n * 2 ^ 1074) = Finite (n * 2 ^ 1074)"
  by (intro round_units_representable representable_scaled) simp_all

lemma fadd_of_int:
  assumes "\<bar>a + b\<bar> < 2 ^ 53"
  shows "fadd (pyfloat_of_int a) (pyfloat_of_int b) = pyfloat_of_int (a + b)"
proof -
  have "fadd (pyfloat_of_int a) (pyfloat_of_int b) = round_units ((a + b) * 2 ^ 1074)"
    by (simp only: pyfloat_of_int_def fadd.simps distrib_right)
  also have "\<dots> = Finite ((a + b) * 2 ^ 1074)"
    using assms by (rule round_units_of_int)
  finally show ?thesis by (simp only: pyfloat_of_int_def)
qed

lemma fsub_of_int:
  assumes "\<bar>a - b\<bar> < 2 ^ 53"
  shows "fsub (pyfloat_of_int a) (pyfloat_of_int b) = pyfloat_of_int (a - b)"
proof -
  have "fsub (pyfloat_of_int a) (pyfloat_of_int b) = round_units ((a - b) * 2 ^ 1074)"
    by (simp only: pyfloat_of_int_def fsub.simps left_diff_distrib)
  also have "\<dots> = Finite ((a - b) * 2 ^ 1074)"
    using assms by (rule round_units_of_int)
  finally show ?thesis by (simp only: pyfloat_of_int_def)
qed

lemma flt_of_int: "flt (pyfloat_of_int a) (pyfloat_of_int b) \<longleftrightarrow> a < b"
  by (simp add: pyfloat_of_int_def)

lemma fge_of_int: "fge (pyfloat_of_int a) (pyfloat_of_int b) \<longleftrightarrow> b \<le> a"
  by (simp add: pyfloat_of_int_def)

lemma flt_of_int_zero: "flt (pyfloat_of_int a) (Finite 0) \<longleftrightarrow> a < 0"
  by (simp add: pyfloat_of_int_def mult_less_0_iff)

lemma flt_zero_of_int: "flt (Finite 0) (pyfloat_of_int a) \<longleftrightarrow> 0 < a"
  by (simp add: pyfloat_of_int_def zero_less_mult_iff)

lemma fge_of_int_zero: "fge (pyfloat_of_int a) (Finite 0) \<longleftrightarrow> 0 \<le> a"
  by (simp add: pyfloat_of_int_def zero_le_mult_iff)

lemma pyfloat_of_int_zero: "pyfloat_of_int 0 = Finite 0"
  by (simp add: pyfloat_of_int_def)

lemma pyfloat_of_int_eq: "pyfloat_of_int a = pyfloat_of_int b \<longleftrightarrow> a = b"
  by (simp add: pyfloat_of_int_def)

lemma pyfloat_of_int_special:
  "pyfloat_of_int a \<noteq> NaN" "pyfloat_of_int a \<noteq> PosInf" "pyfloat_of_int a \<noteq> NegInf"
  "NaN \<noteq> pyfloat_of_int a" "PosInf \<noteq> pyfloat_of_int a" "NegInf \<noteq> pyfloat_of_int a"
  by (simp_all add: pyfloat_of_int_def)

lemma store_float_of_int: "store_float (pyfloat_of_int a) = Some (pyfloat_of_int a)"
  by (simp add: store_float_def pyfloat_of_int_def)

lemma is_double_of_int:
  assumes "\<bar>n\<bar> < 2 ^ 53"
  shows "is_double (pyfloat_of_int n)"
proof -
  have "representable (n * 2 ^ 1074)"
    using assms by (intro representable_scaled) simp_all
  then show ?thesis
    unfolding is_double_def pyfloat_of_int_def by (simp only: pyfloat.case)
qed

lemmas float_eval =
  fadd_of_int fsub_of_int flt_of_int fge_of_int flt_of_int_zero flt_zero_of_int
  fge_of_int_zero pyfloat_of_int_eq pyfloat_of_int_special store_float_of_int

text \<open>Two roundings that are not exact: 10000000000000001 is a tie between two
  doubles and goes to the even one; twice \<^verbatim>\<open>2**1023\<close> is beyond the largest double.\<close>

lemma round53_tie: "round53 10000000000000001 = 10000000000000000"
  by code_simp

lemma fadd_rounds:
  "fadd (pyfloat_of_int 10000000000000000) (pyfloat_of_int 1) = pyfloat_of_int 10000000000000000"
proof -
  have "round53 (10000000000000001 * 2 ^ 1074) = round53 10000000000000001 * 2 ^ 1074"
    by (rule round53_scale) simp
  moreover have "\<bar>10000000000000001 * 2 ^ 1074 :: int\<bar> = 10000000000000001 * 2 ^ 1074"
    by simp
  ultimately have r: "round53 \<bar>10000000000000001 * 2 ^ 1074\<bar> = 10000000000000000 * 2 ^ 1074"
    by (simp only: round53_tie)
  have "\<not> (2::int) ^ 2098 \<le> 10000000000000000 * 2 ^ 1074"
    by simp
  then have "round_units (10000000000000001 * 2 ^ 1074) = Finite (10000000000000000 * 2 ^ 1074)"
    unfolding round_units_def Let_def r by simp
  then show ?thesis
    by (simp add: pyfloat_of_int_def)
qed

lemma fadd_overflows:
  "fadd (pyfloat_of_int (2 ^ 1023)) (pyfloat_of_int (2 ^ 1023)) = PosInf"
proof -
  have "round53 1 = 1" by (rule round53_small) simp
  moreover have "round53 (1 * 2 ^ 2098) = round53 1 * 2 ^ 2098"
    by (rule round53_scale) simp
  ultimately have r: "round53 \<bar>2 ^ 2098\<bar> = 2 ^ 2098" by simp
  have "round_units (2 ^ 2098) = PosInf"
    unfolding round_units_def Let_def r by simp
  moreover have "(2::int) ^ 1023 * 2 ^ 1074 + 2 ^ 1023 * 2 ^ 1074 = 2 ^ 2098"
    by simp
  ultimately show ?thesis
    by (simp only: pyfloat_of_int_def fadd.simps)
qed

lemma round_units_nonneg:
  assumes "0 \<le> k"
  shows "fge (round_units k) (Finite 0)"
proof -
  from assms have "0 \<le> round53 \<bar>k\<bar>" by (intro round53_nonneg) simp
  with assms show ?thesis by (simp add: round_units_def Let_def)
qed

section \<open>More facts about floats\<close>

lemma flt_zero_not_neg: "flt (Finite 0) x \<Longrightarrow> \<not> flt x (Finite 0)"
  by (cases x) auto

lemma flt_zero_not_nan: "flt (Finite 0) x \<Longrightarrow> x \<noteq> NaN"
  by (cases x) auto

lemma fge_zero_not_neg: "fge x (Finite 0) \<Longrightarrow> \<not> flt x (Finite 0)"
  by (cases x) auto

lemma flt_not_fge: "flt x y \<Longrightarrow> \<not> fge x y"
  by (cases x; cases y) auto

lemma fge_not_nan: "fge x y \<Longrightarrow> x \<noteq> NaN \<and> y \<noteq> NaN"
  by (cases x; cases y) auto

lemma store_float_Some: "x \<noteq> NaN \<Longrightarrow> store_float x = Some x"
  by (simp add: store_float_def)

lemma fsub_zero: "is_double x \<Longrightarrow> fsub x (Finite 0) = x"
  by (cases x) (simp_all add: is_double_def round_units_representable)

lemma fadd_zero: "is_double x \<Longrightarrow> fadd x (Finite 0) = x"
  by (cases x) (simp_all add: is_double_def round_units_representable)

lemma fsub_of_int_zero: "\<bar>a\<bar> < 2 ^ 53 \<Longrightarrow> fsub (pyfloat_of_int a) (Finite 0) = pyfloat_of_int a"
  by (simp add: fsub_zero is_double_of_int)

lemma fadd_of_int_zero: "\<bar>a\<bar> < 2 ^ 53 \<Longrightarrow> fadd (pyfloat_of_int a) (Finite 0) = pyfloat_of_int a"
  by (simp add: fadd_zero is_double_of_int)

text \<open>A debit that the check of line 78 lets through, of an amount the check of line 49
  lets through and that is not infinite, leaves a float at or above 0; so does a credit
  to a balance at or above 0.\<close>

lemma fsub_nonneg:
  assumes "fge bs amt" and "\<not> flt amt (Finite 0)" and "amt \<noteq> PosInf"
  shows "fge (fsub bs amt) (Finite 0)"
proof (cases amt)
  case (Finite a)
  show ?thesis
  proof (cases bs)
    case (Finite b)
    with assms \<open>amt = Finite a\<close> have "0 \<le> b - a" by simp
    then have "fge (round_units (b - a)) (Finite 0)" by (rule round_units_nonneg)
    with Finite \<open>amt = Finite a\<close> show ?thesis by simp
  qed (use assms Finite in simp_all)
qed (use assms in \<open>cases bs; simp\<close>)+

lemma fadd_nonneg:
  assumes "fge bd (Finite 0)" and "\<not> flt amt (Finite 0)" and "amt \<noteq> NaN"
  shows "fge (fadd bd amt) (Finite 0)"
proof (cases amt)
  case (Finite a)
  show ?thesis
  proof (cases bd)
    case (Finite d)
    with assms \<open>amt = Finite a\<close> have "0 \<le> d + a" by simp
    then have "fge (round_units (d + a)) (Finite 0)" by (rule round_units_nonneg)
    with Finite \<open>amt = Finite a\<close> show ?thesis by simp
  qed (use assms Finite in simp_all)
qed (use assms in \<open>cases bd; simp\<close>)+

text \<open>Arithmetic on \<^verbatim>\<open>2.0**1023\<close>.\<close>

lemma huge_float_facts:
  "fadd huge_float huge_float = PosInf"
  "fsub huge_float huge_float = Finite 0"
  "fge huge_float huge_float"
  "fge huge_float (Finite 0)"
  "\<not> flt huge_float (Finite 0)"
  "huge_float \<noteq> NaN"
  "huge_float \<noteq> PosInf"
proof -
  show "fadd huge_float huge_float = PosInf"
    unfolding huge_float_def by (rule fadd_overflows)
  have "fsub (pyfloat_of_int (2 ^ 1023)) (pyfloat_of_int (2 ^ 1023)) = pyfloat_of_int 0"
    using fsub_of_int [of "2 ^ 1023" "2 ^ 1023"] by simp
  then show "fsub huge_float huge_float = Finite 0"
    by (simp add: huge_float_def pyfloat_of_int_zero)
  show "fge huge_float huge_float"
    by (simp add: huge_float_def fge_of_int)
  show "fge huge_float (Finite 0)"
    by (simp add: huge_float_def fge_of_int_zero)
  show "\<not> flt huge_float (Finite 0)"
    by (simp add: huge_float_def flt_of_int_zero)
  show "huge_float \<noteq> NaN" "huge_float \<noteq> PosInf"
    by (simp_all add: huge_float_def pyfloat_of_int_special)
qed

section \<open>Facts about the store\<close>

lemma one_Inr_iff: "one xs = Inr x \<longleftrightarrow> xs = [x]"
  by (cases xs rule: one.cases) auto

lemma fold_max_ge: "(a::int) \<le> fold max xs a"
proof (induction xs arbitrary: a)
  case Nil
  show ?case by simp
next
  case (Cons x xs)
  have "a \<le> max x a" by simp
  also have "max x a \<le> fold max xs (max x a)" by (rule Cons.IH)
  finally show ?case by simp
qed

lemma fold_max_upper: "(i::int) \<in> set xs \<Longrightarrow> i \<le> fold max xs a"
proof (induction xs arbitrary: a)
  case Nil
  then show ?case by simp
next
  case (Cons x xs)
  show ?case
  proof (cases "i = x")
    case True
    have "x \<le> max x a" by simp
    also have "max x a \<le> fold max xs (max x a)" by (rule fold_max_ge)
    finally show ?thesis using True by simp
  next
    case False
    with Cons.prems have "i \<in> set xs" by simp
    then show ?thesis using Cons.IH by simp
  qed
qed

lemma next_id_fresh: "i \<in> set ids \<Longrightarrow> i < next_id ids"
proof (cases ids)
  case Nil
  assume "i \<in> set ids"
  with Nil show ?thesis by simp
next
  case (Cons j js)
  assume "i \<in> set ids"
  with Cons have "i = j \<or> i \<in> set js" by simp
  then have "i \<le> fold max js j"
    using fold_max_ge [of j js] fold_max_upper [of i js j] by auto
  with Cons show ?thesis by simp
qed

lemma next_id_notin: "next_id ids \<notin> set ids"
  using next_id_fresh [of "next_id ids" ids] by auto

lemma update_transaction_fresh:
  assumes "txn_id t \<notin> set (map txn_id rows)"
  shows "update_transaction t rows = rows"
  using assms unfolding update_transaction_def
  by (induction rows) auto

lemma update_transaction_intent:
  "update_transaction
      (new_transaction_row rd t db\<lparr>success := True, executed_time := Some now\<rparr>)
      (transactions db @ [new_transaction_row rd t db]) =
    transactions db @ [new_transaction_row rd t db\<lparr>success := True, executed_time := Some now\<rparr>]"
proof -
  let ?e = "new_transaction_row rd t db\<lparr>success := True, executed_time := Some now\<rparr>"
  have id: "txn_id ?e = next_id (map txn_id (transactions db))"
    by (simp add: new_transaction_row_def)
  have "txn_id ?e \<notin> set (map txn_id (transactions db))"
    unfolding id by (rule next_id_notin)
  then have "update_transaction ?e (transactions db) = transactions db"
    by (rule update_transaction_fresh)
  then show ?thesis
    by (simp add: update_transaction_def new_transaction_row_def)
qed

lemma query_account_update_cash:
  "query_account j (update_cash i c rows) =
     map (\<lambda>a. if acc_id a = i then a\<lparr>available_cash := c\<rparr> else a) (query_account j rows)"
  unfolding query_account_def update_cash_def
  by (induction rows) auto

lemma query_account_ids: "a \<in> set (query_account j rows) \<Longrightarrow> acc_id a = j"
  by (simp add: query_account_def)

lemma query_account_update_same:
  "query_account i rows = [s] \<Longrightarrow>
   query_account i (update_cash i c rows) = [s\<lparr>available_cash := c\<rparr>]"
  using query_account_ids [of s i rows] by (simp add: query_account_update_cash)

lemma query_account_update_other:
  assumes "j \<noteq> i"
  shows "query_account j (update_cash i c rows) = query_account j rows"
proof -
  have "map (\<lambda>a. if acc_id a = i then a\<lparr>available_cash := c\<rparr> else a) (query_account j rows)
      = map (\<lambda>a. a) (query_account j rows)"
    using assms by (intro map_cong) (auto dest: query_account_ids)
  then show ?thesis by (simp add: query_account_update_cash)
qed



text \<open>The exact sum after the update of the one row with a given id, old and new
  balance finite.\<close>

lemma sum_update_cash:
  "query_account i rows = [s] \<Longrightarrow> available_cash s = Some (Finite k) \<Longrightarrow>
   total_cash \<lparr>accounts = update_cash i (Some (Finite k')) rows, transactions = ts'\<rparr> =
     total_cash \<lparr>accounts = rows, transactions = ts\<rparr> - k + k'"
proof (induction rows)
  case Nil
  then show ?case by (simp add: query_account_def)
next
  case (Cons a rows)
  show ?case
  proof (cases "acc_id a = i")
    case True
    with Cons.prems have a: "a = s" and none: "query_account i rows = []"
      by (simp_all add: query_account_def)
    from none have "\<forall>b \<in> set rows. acc_id b \<noteq> i"
      by (simp add: query_account_def filter_empty_conv)
    then have "update_cash i (Some (Finite k')) rows = rows"
      unfolding update_cash_def by (induction rows) auto
    with True a Cons.prems(2) show ?thesis
      by (simp add: update_cash_def total_cash_def)
  next
    case False
    with Cons.prems have "query_account i rows = [s]"
      by (simp add: query_account_def)
    then have "total_cash \<lparr>accounts = update_cash i (Some (Finite k')) rows, transactions = ts'\<rparr> =
       total_cash \<lparr>accounts = rows, transactions = ts\<rparr> - k + k'"
      using Cons.prems(2) by (rule Cons.IH)
    with False show ?thesis by (simp add: update_cash_def total_cash_def)
  qed
qed

lemma query_account_distinct:
  "distinct (map acc_id rows) \<Longrightarrow> s \<in> set rows \<Longrightarrow> query_account (acc_id s) rows = [s]"
proof (induction rows)
  case Nil
  then show ?case by simp
next
  case (Cons a rows)
  show ?case
  proof (cases "a = s")
    case True
    from Cons.prems(1) have "acc_id a \<notin> acc_id ` set rows" by simp
    then have "\<forall>b \<in> set rows. acc_id b \<noteq> acc_id a" by (metis image_eqI)
    then have "query_account (acc_id a) rows = []"
      by (simp add: query_account_def filter_empty_conv)
    with True show ?thesis by (simp add: query_account_def)
  next
    case False
    with Cons.prems have in_rows: "s \<in> set rows" and d: "distinct (map acc_id rows)"
      by simp_all
    from Cons.prems(1) have "acc_id a \<notin> acc_id ` set rows" by simp
    with in_rows have "acc_id a \<noteq> acc_id s" by (metis image_eqI)
    with Cons.IH [OF d in_rows] show ?thesis by (simp add: query_account_def)
  qed
qed

lemma primary_key_found:
  assumes "primary_key rows" and "s \<in> set rows"
  shows "query_account (acc_id s) rows = [s]" and "int64 (acc_id s)"
proof -
  from assms show "query_account (acc_id s) rows = [s]"
    by (simp add: primary_key_def query_account_distinct)
  from assms show "int64 (acc_id s)"
    by (simp add: primary_key_def list_all_iff)
qed

section \<open>The paths of a call\<close>

text \<open>The executing path: the outcome when nothing faults, and what is committed when
  the commit itself does not fault.\<close>

lemma process_transaction_executes:
  assumes "int64 (source_account_id t)" and "int64 (destination_account_id t)"
    and "\<not> flt (cash_amount t) (Finite 0)"
    and "source_account_id t \<noteq> destination_account_id t"
    and "query_account (source_account_id t) (accounts db) = [s]"
    and "query_account (destination_account_id t) (accounts db) = [d]"
    and "available_cash s = Some bs" and "available_cash d = Some bd"
    and "fge bs (cash_amount t)"
  shows "process_transaction rd now None t db =
    \<lparr>response = Inr (new_transaction_row rd t db\<lparr>success := True, executed_time := Some now\<rparr>),
     commits =
       [db\<lparr>transactions := transactions db @ [new_transaction_row rd t db]\<rparr>,
        \<lparr>accounts =
          update_cash (destination_account_id t) (store_float (fadd bd (cash_amount t)))
            (update_cash (source_account_id t) (store_float (fsub bs (cash_amount t)))
              (accounts db)),
        transactions = transactions db @
          [new_transaction_row rd t db\<lparr>success := True, executed_time := Some now\<rparr>]\<rparr>],
     committed =
       \<lparr>accounts =
          update_cash (destination_account_id t) (store_float (fadd bd (cash_amount t)))
            (update_cash (source_account_id t) (store_float (fsub bs (cash_amount t)))
              (accounts db)),
        transactions = transactions db @
          [new_transaction_row rd t db\<lparr>success := True, executed_time := Some now\<rparr>]\<rparr>,
     locked = [source_account_id t, destination_account_id t]\<rparr>"
  using assms
  by (simp add: process_transaction_def Let_def update_transaction_intent)

text \<open>Every call ends on one of three paths: nothing committed (an id beyond 64 bits),
  the new row committed and nothing else, or the transfer committed as well.\<close>

lemma process_transaction_cases:
  "(\<not> (int64 (source_account_id t) \<and> int64 (destination_account_id t)) \<and>
      response (process_transaction rd now f t db) = Inl (Uncaught OverflowError) \<and>
      commits (process_transaction rd now f t db) = [] \<and>
      committed (process_transaction rd now f t db) = db) \<or>
   (int64 (source_account_id t) \<and> int64 (destination_account_id t) \<and>
      (\<exists>e. response (process_transaction rd now f t db) = Inl e) \<and>
      commits (process_transaction rd now f t db) =
        [db\<lparr>transactions := transactions db @ [new_transaction_row rd t db]\<rparr>] \<and>
      committed (process_transaction rd now f t db) =
        db\<lparr>transactions := transactions db @ [new_transaction_row rd t db]\<rparr>) \<or>
   (\<exists>s d bs bd.
      int64 (source_account_id t) \<and> int64 (destination_account_id t) \<and>
      \<not> flt (cash_amount t) (Finite 0) \<and>
      source_account_id t \<noteq> destination_account_id t \<and>
      query_account (source_account_id t) (accounts db) = [s] \<and>
      query_account (destination_account_id t) (accounts db) = [d] \<and>
      available_cash s = Some bs \<and> available_cash d = Some bd \<and>
      fge bs (cash_amount t) \<and> (\<forall>e. f \<noteq> Some (CommitFault e)) \<and>
      response (process_transaction rd now f t db) =
        (case f of
           None \<Rightarrow> Inr (new_transaction_row rd t db\<lparr>success := True, executed_time := Some now\<rparr>)
         | Some (CommitFault e) \<Rightarrow> Inl (InternalError e)
         | Some (RefreshFault e) \<Rightarrow> Inl (InternalError e)
         | Some (CloseFault e) \<Rightarrow> Inl (InternalError e)) \<and>
      commits (process_transaction rd now f t db) =
        [db\<lparr>transactions := transactions db @ [new_transaction_row rd t db]\<rparr>,
         \<lparr>accounts =
            update_cash (destination_account_id t) (store_float (fadd bd (cash_amount t)))
              (update_cash (source_account_id t) (store_float (fsub bs (cash_amount t)))
                (accounts db)),
          transactions = transactions db @
            [new_transaction_row rd t db\<lparr>success := True, executed_time := Some now\<rparr>]\<rparr>] \<and>
      committed (process_transaction rd now f t db) =
        \<lparr>accounts =
            update_cash (destination_account_id t) (store_float (fadd bd (cash_amount t)))
              (update_cash (source_account_id t) (store_float (fsub bs (cash_amount t)))
                (accounts db)),
          transactions = transactions db @
            [new_transaction_row rd t db\<lparr>success := True, executed_time := Some now\<rparr>]\<rparr>)"
  by (auto simp add: process_transaction_def Let_def one_Inr_iff update_transaction_intent
      split: sum.splits option.splits fault.splits)

text \<open>One call keeps the balances at or above 0 when the amount is not infinite.\<close>

lemma nonneg_update_cash:
  assumes "list_all (\<lambda>a. case available_cash a of None \<Rightarrow> False | Some x \<Rightarrow> fge x (Finite 0)) rows"
    and "fge c (Finite 0)"
  shows "list_all (\<lambda>a. case available_cash a of None \<Rightarrow> False | Some x \<Rightarrow> fge x (Finite 0))
           (update_cash i (Some c) rows)"
  using assms unfolding update_cash_def by (induction rows) auto

lemma nonneg_process_transaction:
  assumes inv: "nonneg_balances db" and finite: "cash_amount t \<noteq> PosInf"
  shows "nonneg_balances (committed (process_transaction rd now f t db))"
proof -
  let ?out = "process_transaction rd now f t db"
  let ?P = "\<lambda>a::account_row. case available_cash a of None \<Rightarrow> False | Some x \<Rightarrow> fge x (Finite 0)"
  consider (nothing) "committed ?out = db"
    | (kept) "committed ?out = db\<lparr>transactions := transactions db @ [new_transaction_row rd t db]\<rparr>"
    | (moved) s d bs bd where "\<not> flt (cash_amount t) (Finite 0)"
        "query_account (source_account_id t) (accounts db) = [s]"
        "query_account (destination_account_id t) (accounts db) = [d]"
        "available_cash s = Some bs" "available_cash d = Some bd"
        "fge bs (cash_amount t)"
        "accounts (committed ?out) =
           update_cash (destination_account_id t) (store_float (fadd bd (cash_amount t)))
             (update_cash (source_account_id t) (store_float (fsub bs (cash_amount t)))
               (accounts db))"
    using process_transaction_cases [of t rd now f db] by fastforce
  then show ?thesis
  proof cases
    case nothing
    with inv show ?thesis by simp
  next
    case kept
    with inv show ?thesis by (simp add: nonneg_balances_def)
  next
    case moved
    have "d \<in> set (query_account (destination_account_id t) (accounts db))"
      using moved(3) by simp
    then have "d \<in> set (accounts db)" by (simp add: query_account_def)
    with inv moved(5) have d0: "fge bd (Finite 0)"
      by (auto simp add: nonneg_balances_def list_all_iff)
    have amt: "cash_amount t \<noteq> NaN"
      using fge_not_nan [OF moved(6)] by simp
    have s1: "fge (fsub bs (cash_amount t)) (Finite 0)"
      using moved(6) moved(1) finite by (rule fsub_nonneg)
    have d1: "fge (fadd bd (cash_amount t)) (Finite 0)"
      using d0 moved(1) amt by (rule fadd_nonneg)
    have st: "store_float (fsub bs (cash_amount t)) = Some (fsub bs (cash_amount t))"
      "store_float (fadd bd (cash_amount t)) = Some (fadd bd (cash_amount t))"
      using fge_not_nan [OF s1] fge_not_nan [OF d1] by (simp_all add: store_float_Some)
    have "list_all ?P (accounts db)"
      using inv by (simp add: nonneg_balances_def)
    then have "list_all ?P
        (update_cash (source_account_id t) (Some (fsub bs (cash_amount t))) (accounts db))"
      using s1 by (rule nonneg_update_cash)
    then have "list_all ?P
        (update_cash (destination_account_id t) (Some (fadd bd (cash_amount t)))
          (update_cash (source_account_id t) (Some (fsub bs (cash_amount t))) (accounts db)))"
      using d1 by (rule nonneg_update_cash)
    then show ?thesis
      unfolding nonneg_balances_def moved(7) st .
  qed
qed

section \<open>The claims\<close>

lemmas float_simps = float_eval fsub_of_int_zero fadd_of_int_zero store_float_Some

lemmas eval_defs =
  process_transaction_def new_transaction_row_def test_db_def test_accounts_def
  query_account_def update_cash_def update_transaction_def int64_def
  nonneg_balances_def create_account_def primary_key_def Let_def

text \<open>
  C1, as the source computes it. A transfer of a positive amount between two different
  existing accounts whose balances are floats (not \<^verbatim>\<open>NULL\<close>), the source holding at
  least the amount, succeeds when nothing in the \<^verbatim>\<open>try\<close> block faults: the
  returned record has \<open>success\<close> true and \<open>executed_time\<close> set, the source balance
  becomes the float \<open>balance - amount\<close> and the destination balance the float
  \<open>balance + amount\<close>, each the double nearest to the exact result (ties to even, an
  infinity beyond the largest double, a NaN stored as \<^verbatim>\<open>NULL\<close>). When both exact
  results are doubles, the source goes down and the destination goes up by exactly the
  amount and the sum of all balances is unchanged. The account ids are a primary key.
\<close>

theorem process_transaction_transfer:
  assumes pk: "primary_key (accounts db)"
    and amount: "flt (Finite 0) (cash_amount t)"
    and differ: "source_account_id t \<noteq> destination_account_id t"
    and src: "s \<in> set (accounts db)" "acc_id s = source_account_id t"
      "available_cash s = Some bs"
    and dst: "d \<in> set (accounts db)" "acc_id d = destination_account_id t"
      "available_cash d = Some bd"
    and funds: "fge bs (cash_amount t)"
  shows "\<exists>r db'. response (process_transaction rd now None t db) = Inr r \<and>
          committed (process_transaction rd now None t db) = db' \<and>
          success r \<and> executed_time r = Some now \<and>
          cash_amount r = Some (cash_amount t) \<and>
          source_account_id r = source_account_id t \<and>
          destination_account_id r = destination_account_id t \<and>
          one (query_account (source_account_id t) (accounts db')) =
            Inr (s\<lparr>available_cash := store_float (fsub bs (cash_amount t))\<rparr>) \<and>
          one (query_account (destination_account_id t) (accounts db')) =
            Inr (d\<lparr>available_cash := store_float (fadd bd (cash_amount t))\<rparr>) \<and>
          (\<forall>ks kd ka.
             bs = Finite ks \<and> bd = Finite kd \<and> cash_amount t = Finite ka \<and>
             representable (ks - ka) \<and> representable (kd + ka) \<longrightarrow>
               fsub bs (cash_amount t) = Finite (ks - ka) \<and>
               fadd bd (cash_amount t) = Finite (kd + ka) \<and>
               total_cash db' = total_cash db)"
proof -
  let ?src = "source_account_id t" and ?dst = "destination_account_id t"
  let ?amt = "cash_amount t"
  let ?mid = "update_cash ?src (store_float (fsub bs ?amt)) (accounts db)"
  let ?new = "update_cash ?dst (store_float (fadd bd ?amt)) ?mid"
  let ?r = "new_transaction_row rd t db\<lparr>success := True, executed_time := Some now\<rparr>"
  let ?db' = "\<lparr>accounts = ?new, transactions = transactions db @ [?r]\<rparr>"
  let ?out = "process_transaction rd now None t db"
  have qs: "query_account ?src (accounts db) = [s]" and s64: "int64 ?src"
    using primary_key_found [OF pk src(1)] src(2) by simp_all
  have qd: "query_account ?dst (accounts db) = [d]" and d64: "int64 ?dst"
    using primary_key_found [OF pk dst(1)] dst(2) by simp_all
  have not_neg: "\<not> flt ?amt (Finite 0)"
    using amount by (rule flt_zero_not_neg)
  have run: "response ?out = Inr ?r" "committed ?out = ?db'"
    using process_transaction_executes [OF s64 d64 not_neg differ qs qd src(3) dst(3) funds,
        of rd now]
    by simp_all
  have qd_mid: "query_account ?dst ?mid = [d]"
    using differ qd by (simp add: query_account_update_other)
  have qs_mid: "query_account ?src ?mid = [s\<lparr>available_cash := store_float (fsub bs ?amt)\<rparr>]"
    using qs by (rule query_account_update_same)
  have src_after:
    "query_account ?src ?new = [s\<lparr>available_cash := store_float (fsub bs ?amt)\<rparr>]"
    using differ qs_mid by (simp add: query_account_update_other)
  have dst_after:
    "query_account ?dst ?new = [d\<lparr>available_cash := store_float (fadd bd ?amt)\<rparr>]"
    using qd_mid by (rule query_account_update_same)
  have fields: "success ?r \<and> executed_time ?r = Some now \<and>
      cash_amount ?r = Some ?amt \<and>
      source_account_id ?r = ?src \<and> destination_account_id ?r = ?dst"
    using flt_zero_not_nan [OF amount]
    by (simp add: new_transaction_row_def store_float_Some)
  have exact: "fsub bs ?amt = Finite (ks - ka) \<and> fadd bd ?amt = Finite (kd + ka) \<and>
      total_cash ?db' = total_cash db"
    if fin: "bs = Finite ks" "bd = Finite kd" "?amt = Finite ka"
      and rep: "representable (ks - ka)" "representable (kd + ka)" for ks kd ka
  proof -
    have sub: "fsub bs ?amt = Finite (ks - ka)"
      using fin rep by (simp add: round_units_representable)
    have add: "fadd bd ?amt = Finite (kd + ka)"
      using fin rep by (simp add: round_units_representable)
    have st1: "store_float (fsub bs ?amt) = Some (Finite (ks - ka))"
      by (simp add: sub store_float_def)
    have st2: "store_float (fadd bd ?amt) = Some (Finite (kd + ka))"
      by (simp add: add store_float_def)
    have t1: "total_cash \<lparr>accounts = ?mid, transactions = transactions db\<rparr> =
        total_cash \<lparr>accounts = accounts db, transactions = transactions db\<rparr> - ks + (ks - ka)"
      unfolding st1 using qs src(3) fin(1) by (intro sum_update_cash) simp_all
    have "available_cash d = Some (Finite kd)" using dst(3) fin(2) by simp
    with qd_mid have t2:
      "total_cash \<lparr>accounts = ?new, transactions = transactions db @ [?r]\<rparr> =
        total_cash \<lparr>accounts = ?mid, transactions = transactions db\<rparr> - kd + (kd + ka)"
      unfolding st2 by (intro sum_update_cash) simp_all
    have "total_cash ?db' = total_cash \<lparr>accounts = accounts db, transactions = transactions db\<rparr>"
      unfolding t2 t1 by simp
    also have "\<dots> = total_cash db" by (simp add: total_cash_def)
    finally show ?thesis using sub add by simp
  qed
  have exact_all: "\<forall>ks kd ka.
      bs = Finite ks \<and> bd = Finite kd \<and> ?amt = Finite ka \<and>
      representable (ks - ka) \<and> representable (kd + ka) \<longrightarrow>
        fsub bs ?amt = Finite (ks - ka) \<and> fadd bd ?amt = Finite (kd + ka) \<and>
        total_cash ?db' = total_cash db"
    using exact by blast
  have lookups:
    "one (query_account ?src (accounts ?db')) =
       Inr (s\<lparr>available_cash := store_float (fsub bs ?amt)\<rparr>)"
    "one (query_account ?dst (accounts ?db')) =
       Inr (d\<lparr>available_cash := store_float (fadd bd ?amt)\<rparr>)"
    by (simp_all add: src_after dst_after)
  show ?thesis
    apply (rule exI [of _ ?r])
    apply (rule exI [of _ ?db'])
    apply (intro conjI)
             apply (rule run(1))
            apply (rule run(2))
           apply (simp add: fields)
          apply (simp add: fields)
         apply (simp add: fields)
        apply (simp add: fields)
       apply (simp add: fields)
      apply (rule lookups(1))
     apply (rule lookups(2))
    apply (rule exact_all)
    done
qed

text \<open>
  The first scenario of the tests: 200 from Alice to Bob.
\<close>

theorem process_transaction_transfer_witness:
  "response (process_transaction 0 5 None
      \<lparr>cash_amount = pyfloat_of_int 200, source_account_id = 1, destination_account_id = 2\<rparr>
      test_db) =
     Inr \<lparr>cash_amount = Some (pyfloat_of_int 200), source_account_id = 1,
          destination_account_id = 2, txn_id = 1, executed_time = Some 5,
          registered_time = Some 0, success = True\<rparr> \<and>
   map available_cash (accounts (committed (process_transaction 0 5 None
      \<lparr>cash_amount = pyfloat_of_int 200, source_account_id = 1, destination_account_id = 2\<rparr>
      test_db))) =
     [Some (pyfloat_of_int 800), Some (pyfloat_of_int 700), Some (pyfloat_of_int 300)] \<and>
   total_cash (committed (process_transaction 0 5 None
      \<lparr>cash_amount = pyfloat_of_int 200, source_account_id = 1, destination_account_id = 2\<rparr>
      test_db)) = total_cash test_db"
proof -
  let ?t = "\<lparr>cash_amount = pyfloat_of_int 200, source_account_id = 1,
      destination_account_id = 2\<rparr>"
  let ?out = "process_transaction 0 5 None ?t test_db"
  have pk: "primary_key (accounts test_db)"
    by (simp add: eval_defs)
  have "\<exists>r db'. response ?out = Inr r \<and> committed ?out = db' \<and>
          success r \<and> executed_time r = Some 5 \<and>
          cash_amount r = Some (cash_amount ?t) \<and>
          source_account_id r = source_account_id ?t \<and>
          destination_account_id r = destination_account_id ?t \<and>
          one (query_account (source_account_id ?t) (accounts db')) =
            Inr (\<lparr>name = ''Alice'', available_cash = Some (pyfloat_of_int 1000), acc_id = 1\<rparr>
              \<lparr>available_cash := store_float (fsub (pyfloat_of_int 1000) (cash_amount ?t))\<rparr>) \<and>
          one (query_account (destination_account_id ?t) (accounts db')) =
            Inr (\<lparr>name = ''Bob'', available_cash = Some (pyfloat_of_int 500), acc_id = 2\<rparr>
              \<lparr>available_cash := store_float (fadd (pyfloat_of_int 500) (cash_amount ?t))\<rparr>) \<and>
          (\<forall>ks kd ka.
             pyfloat_of_int 1000 = Finite ks \<and> pyfloat_of_int 500 = Finite kd \<and>
             cash_amount ?t = Finite ka \<and>
             representable (ks - ka) \<and> representable (kd + ka) \<longrightarrow>
               fsub (pyfloat_of_int 1000) (cash_amount ?t) = Finite (ks - ka) \<and>
               fadd (pyfloat_of_int 500) (cash_amount ?t) = Finite (kd + ka) \<and>
               total_cash db' = total_cash test_db)"
    by (rule process_transaction_transfer [OF pk])
      (simp_all add: test_db_def test_accounts_def float_simps)
  then have exact: "pyfloat_of_int 1000 = Finite ks \<and> pyfloat_of_int 500 = Finite kd \<and>
      pyfloat_of_int 200 = Finite ka \<and> representable (ks - ka) \<and> representable (kd + ka) \<longrightarrow>
      total_cash (committed ?out) = total_cash test_db" for ks kd ka
    by auto
  have "representable (800 * 2 ^ 1074)" "representable (700 * 2 ^ 1074)"
    by (intro representable_scaled; simp)+
  moreover have "1000 * 2 ^ 1074 - 200 * 2 ^ 1074 = (800 * 2 ^ 1074 :: int)"
    and "500 * 2 ^ 1074 + 200 * 2 ^ 1074 = (700 * 2 ^ 1074 :: int)"
    by simp_all
  ultimately have "representable (1000 * 2 ^ 1074 - 200 * 2 ^ 1074)"
    and "representable (500 * 2 ^ 1074 + 200 * 2 ^ 1074)"
    by simp_all
  then have total: "total_cash (committed ?out) = total_cash test_db"
    using exact [of "1000 * 2 ^ 1074" "500 * 2 ^ 1074" "200 * 2 ^ 1074"]
    by (simp only: pyfloat_of_int_def simp_thms)
  have "response ?out =
     Inr \<lparr>cash_amount = Some (pyfloat_of_int 200), source_account_id = 1,
          destination_account_id = 2, txn_id = 1, executed_time = Some 5,
          registered_time = Some 0, success = True\<rparr>"
    by (simp add: eval_defs float_simps)
  moreover have "map available_cash (accounts (committed ?out)) =
     [Some (pyfloat_of_int 800), Some (pyfloat_of_int 700), Some (pyfloat_of_int 300)]"
    by (simp add: eval_defs float_simps)
  ultimately show ?thesis using total by simp
qed

text \<open>
  The amount 1 from Alice to an account that holds \<^verbatim>\<open>1e16\<close>: the transfer succeeds,
  Alice goes from 1000 to 999, the other balance stays at \<^verbatim>\<open>1e16\<close>, and the sum of
  the balances has changed.
\<close>

theorem process_transaction_transfer_counterexample:
  "response (process_transaction 0 5 None
      \<lparr>cash_amount = pyfloat_of_int 1, source_account_id = 1, destination_account_id = 2\<rparr>
      whale_db) =
     Inr \<lparr>cash_amount = Some (pyfloat_of_int 1), source_account_id = 1,
          destination_account_id = 2, txn_id = 1, executed_time = Some 5,
          registered_time = Some 0, success = True\<rparr> \<and>
   map available_cash (accounts whale_db) =
     [Some (pyfloat_of_int 1000), Some (pyfloat_of_int 10000000000000000)] \<and>
   map available_cash (accounts (committed (process_transaction 0 5 None
      \<lparr>cash_amount = pyfloat_of_int 1, source_account_id = 1, destination_account_id = 2\<rparr>
      whale_db))) =
     [Some (pyfloat_of_int 999), Some (pyfloat_of_int 10000000000000000)] \<and>
   total_cash (committed (process_transaction 0 5 None
      \<lparr>cash_amount = pyfloat_of_int 1, source_account_id = 1, destination_account_id = 2\<rparr>
      whale_db)) \<noteq> total_cash whale_db"
proof -
  let ?out = "process_transaction 0 5 None
      \<lparr>cash_amount = pyfloat_of_int 1, source_account_id = 1, destination_account_id = 2\<rparr>
      whale_db"
  have r: "response ?out =
     Inr \<lparr>cash_amount = Some (pyfloat_of_int 1), source_account_id = 1,
          destination_account_id = 2, txn_id = 1, executed_time = Some 5,
          registered_time = Some 0, success = True\<rparr>"
    by (simp add: eval_defs whale_db_def float_simps)
  have a: "accounts (committed ?out) =
     [\<lparr>name = ''Alice'', available_cash = Some (pyfloat_of_int 999), acc_id = 1\<rparr>,
      \<lparr>name = ''Whale'', available_cash = Some (pyfloat_of_int 10000000000000000),
       acc_id = 2\<rparr>]"
    by (simp add: eval_defs whale_db_def float_simps fadd_rounds)
  have "total_cash (committed ?out) = 999 * 2 ^ 1074 + 10000000000000000 * 2 ^ 1074"
    unfolding total_cash_def a by (simp add: pyfloat_of_int_def)
  moreover have "total_cash whale_db = 1000 * 2 ^ 1074 + 10000000000000000 * 2 ^ 1074"
    by (simp add: total_cash_def whale_db_def pyfloat_of_int_def)
  ultimately have "total_cash (committed ?out) \<noteq> total_cash whale_db"
    by simp
  with r a show ?thesis by (simp add: whale_db_def)
qed

text \<open>
  C2, as the source computes it. From committed tables in which every balance is a
  float at or above 0, any sequence of calls of \<^verbatim>\<open>process_transaction\<close> none of which
  asks for an infinite amount, whether they execute, fail or fault, leaves committed
  tables in which every balance is a float at or above 0 (an infinite balance
  included).
\<close>

theorem process_all_nonneg_balances:
  assumes "nonneg_balances db"
    and "list_all (\<lambda>(now, fault, transaction). cash_amount transaction \<noteq> PosInf) requests"
  shows "nonneg_balances (process_all rd requests db)"
  using assms
proof (induction requests arbitrary: db)
  case Nil
  then show ?case by simp
next
  case (Cons request requests)
  obtain now f t where request: "request = (now, f, t)"
    by (cases request) auto
  from Cons.prems(2) request have finite: "cash_amount t \<noteq> PosInf"
    and rest: "list_all (\<lambda>(now, fault, transaction). cash_amount transaction \<noteq> PosInf) requests"
    by simp_all
  have "nonneg_balances (committed (process_transaction rd now f t db))"
    using Cons.prems(1) finite by (rule nonneg_process_transaction)
  then have "nonneg_balances
      (process_all rd requests (committed (process_transaction rd now f t db)))"
    using rest by (rule Cons.IH)
  then show ?case by (simp add: request)
qed

text \<open>
  Five calls on the test accounts: two that execute, one whose commit faults, one whose
  refresh faults after the commit, one that is rejected.
\<close>

theorem process_all_nonneg_balances_witness:
  "nonneg_balances test_db \<and>
   nonneg_balances (process_all 0
     [(5, None, \<lparr>cash_amount = pyfloat_of_int 1000, source_account_id = 1,
         destination_account_id = 2\<rparr>),
      (6, None, \<lparr>cash_amount = pyfloat_of_int 1, source_account_id = 1,
         destination_account_id = 2\<rparr>),
      (7, Some (CommitFault ''disk full''), \<lparr>cash_amount = pyfloat_of_int 300,
         source_account_id = 3, destination_account_id = 1\<rparr>),
      (8, Some (RefreshFault ''connection lost''), \<lparr>cash_amount = pyfloat_of_int 100,
         source_account_id = 3, destination_account_id = 1\<rparr>),
      (9, None, \<lparr>cash_amount = pyfloat_of_int (-100), source_account_id = 2,
         destination_account_id = 3\<rparr>)]
     test_db) \<and>
   map available_cash (accounts (process_all 0
     [(5, None, \<lparr>cash_amount = pyfloat_of_int 1000, source_account_id = 1,
         destination_account_id = 2\<rparr>),
      (6, None, \<lparr>cash_amount = pyfloat_of_int 1, source_account_id = 1,
         destination_account_id = 2\<rparr>),
      (7, Some (CommitFault ''disk full''), \<lparr>cash_amount = pyfloat_of_int 300,
         source_account_id = 3, destination_account_id = 1\<rparr>),
      (8, Some (RefreshFault ''connection lost''), \<lparr>cash_amount = pyfloat_of_int 100,
         source_account_id = 3, destination_account_id = 1\<rparr>),
      (9, None, \<lparr>cash_amount = pyfloat_of_int (-100), source_account_id = 2,
         destination_account_id = 3\<rparr>)]
     test_db)) =
     [Some (pyfloat_of_int 100), Some (pyfloat_of_int 1500), Some (pyfloat_of_int 200)]"
proof -
  let ?requests = "[(5, None, \<lparr>cash_amount = pyfloat_of_int 1000, source_account_id = 1,
         destination_account_id = 2\<rparr>),
      (6, None, \<lparr>cash_amount = pyfloat_of_int 1, source_account_id = 1,
         destination_account_id = 2\<rparr>),
      (7, Some (CommitFault ''disk full''), \<lparr>cash_amount = pyfloat_of_int 300,
         source_account_id = 3, destination_account_id = 1\<rparr>),
      (8, Some (RefreshFault ''connection lost''), \<lparr>cash_amount = pyfloat_of_int 100,
         source_account_id = 3, destination_account_id = 1\<rparr>),
      (9, None, \<lparr>cash_amount = pyfloat_of_int (-100), source_account_id = 2,
         destination_account_id = 3\<rparr>)]"
  have inv: "nonneg_balances test_db"
    by (simp add: nonneg_balances_def test_db_def test_accounts_def float_simps)
  have finite: "list_all (\<lambda>(now, fault, transaction). cash_amount transaction \<noteq> PosInf) ?requests"
    by (simp add: float_simps)
  have "map available_cash (accounts (process_all 0 ?requests test_db)) =
     [Some (pyfloat_of_int 100), Some (pyfloat_of_int 1500), Some (pyfloat_of_int 200)]"
    by (simp add: eval_defs float_simps)
  then show ?thesis
    using inv process_all_nonneg_balances [OF inv finite, of 0] by simp
qed

text \<open>
  Two accounts hold \<^verbatim>\<open>2.0**1023\<close> each. A transfer of that amount from the first to
  the second takes the second to infinity; a transfer of an infinite amount back passes
  the check of line 78 and leaves the second with \<^verbatim>\<open>inf - inf\<close>, a NaN, stored as
  \<^verbatim>\<open>NULL\<close>.
\<close>

theorem process_all_nonneg_balances_counterexample:
  "nonneg_balances huge_db \<and>
   map available_cash (accounts (process_all 0
     [(5, None, \<lparr>cash_amount = huge_float, source_account_id = 1,
         destination_account_id = 2\<rparr>),
      (6, None, \<lparr>cash_amount = PosInf, source_account_id = 2,
         destination_account_id = 1\<rparr>)]
     huge_db)) = [Some PosInf, None] \<and>
   \<not> nonneg_balances (process_all 0
     [(5, None, \<lparr>cash_amount = huge_float, source_account_id = 1,
         destination_account_id = 2\<rparr>),
      (6, None, \<lparr>cash_amount = PosInf, source_account_id = 2,
         destination_account_id = 1\<rparr>)]
     huge_db)"
proof -
  let ?requests = "[(5, None, \<lparr>cash_amount = huge_float, source_account_id = 1,
         destination_account_id = 2\<rparr>),
      (6, None, \<lparr>cash_amount = PosInf, source_account_id = 2,
         destination_account_id = 1\<rparr>)]"
  have inv: "nonneg_balances huge_db"
    by (simp add: nonneg_balances_def huge_db_def huge_float_facts)
  have a: "accounts (process_all 0 ?requests huge_db) =
      [\<lparr>name = ''Ann'', available_cash = Some PosInf, acc_id = 1\<rparr>,
       \<lparr>name = ''Ben'', available_cash = None, acc_id = 2\<rparr>]"
    by (simp add: eval_defs huge_db_def huge_float_facts store_float_def)
  have "\<not> nonneg_balances (process_all 0 ?requests huge_db)"
    unfolding nonneg_balances_def a by simp
  with inv a show ?thesis by simp
qed

text \<open>
  C3, as the source has it. A call whose two ids fit 64 bits commits, as its first
  commit and whatever the checks after it will say, the old tables with exactly one new
  transaction row: the ids as given, the amount as given (\<^verbatim>\<open>NULL\<close> for a NaN),
  \<open>success\<close> false and no \<open>executed_time\<close>. At the end of the call the committed
  transaction table is the old one followed by that row, as written or marked executed:
  no path removes it.
\<close>

theorem process_transaction_one_row:
  assumes "int64 (source_account_id t)" and "int64 (destination_account_id t)"
  shows "\<exists>row rest.
      commits (process_transaction rd now f t db) =
        db\<lparr>transactions := transactions db @ [row]\<rparr> # rest \<and>
      cash_amount row = (if cash_amount t = NaN then None else Some (cash_amount t)) \<and>
      source_account_id row = source_account_id t \<and>
      destination_account_id row = destination_account_id t \<and>
      success row = False \<and> executed_time row = None \<and>
      (transactions (committed (process_transaction rd now f t db)) =
         transactions db @ [row] \<or>
       transactions (committed (process_transaction rd now f t db)) =
         transactions db @ [row\<lparr>success := True, executed_time := Some now\<rparr>])"
proof -
  let ?out = "process_transaction rd now f t db"
  let ?row = "new_transaction_row rd t db"
  have fields: "cash_amount ?row = (if cash_amount t = NaN then None else Some (cash_amount t)) \<and>
      source_account_id ?row = source_account_id t \<and>
      destination_account_id ?row = destination_account_id t \<and>
      success ?row = False \<and> executed_time ?row = None"
    by (simp add: new_transaction_row_def store_float_def)
  consider (kept) "commits ?out = [db\<lparr>transactions := transactions db @ [?row]\<rparr>]"
      "committed ?out = db\<lparr>transactions := transactions db @ [?row]\<rparr>"
    | (moved) db2 where
      "commits ?out = [db\<lparr>transactions := transactions db @ [?row]\<rparr>, db2]"
      "committed ?out = db2"
      "transactions db2 =
         transactions db @ [?row\<lparr>success := True, executed_time := Some now\<rparr>]"
    using process_transaction_cases [of t rd now f db] assms by fastforce
  then show ?thesis
  proof cases
    case kept
    have "commits ?out = db\<lparr>transactions := transactions db @ [?row]\<rparr> # []"
      by (simp add: kept(1))
    moreover have "transactions (committed ?out) = transactions db @ [?row]"
      by (simp add: kept(2))
    ultimately show ?thesis using fields by blast
  next
    case moved
    have "commits ?out = db\<lparr>transactions := transactions db @ [?row]\<rparr> # [db2]"
      by (simp add: moved(1))
    moreover have "transactions (committed ?out) =
        transactions db @ [?row\<lparr>success := True, executed_time := Some now\<rparr>]"
      by (simp add: moved(2) moved(3))
    ultimately show ?thesis using fields by blast
  qed
qed

text \<open>
  A rejected request, -100 from Alice to Bob: its row is the first and only commit.
\<close>

theorem process_transaction_one_row_witness:
  "commits (process_transaction 0 5 None
      \<lparr>cash_amount = pyfloat_of_int (-100), source_account_id = 1, destination_account_id = 2\<rparr>
      test_db) =
     [\<lparr>accounts = test_accounts,
       transactions =
         [\<lparr>cash_amount = Some (pyfloat_of_int (-100)), source_account_id = 1,
           destination_account_id = 2, txn_id = 1, executed_time = None,
           registered_time = Some 0, success = False\<rparr>]\<rparr>] \<and>
   transactions (committed (process_transaction 0 5 None
      \<lparr>cash_amount = pyfloat_of_int (-100), source_account_id = 1, destination_account_id = 2\<rparr>
      test_db)) =
     [\<lparr>cash_amount = Some (pyfloat_of_int (-100)), source_account_id = 1,
       destination_account_id = 2, txn_id = 1, executed_time = None,
       registered_time = Some 0, success = False\<rparr>]"
proof -
  let ?t = "\<lparr>cash_amount = pyfloat_of_int (-100), source_account_id = 1,
      destination_account_id = 2\<rparr>"
  have "int64 (source_account_id ?t)" "int64 (destination_account_id ?t)"
    by (simp_all add: int64_def)
  from process_transaction_one_row [OF this, of 0 5 None test_db]
  obtain row rest where
    "commits (process_transaction 0 5 None ?t test_db) =
       test_db\<lparr>transactions := transactions test_db @ [row]\<rparr> # rest"
    by blast
  moreover have "commits (process_transaction 0 5 None ?t test_db) =
     [\<lparr>accounts = test_accounts,
       transactions =
         [\<lparr>cash_amount = Some (pyfloat_of_int (-100)), source_account_id = 1,
           destination_account_id = 2, txn_id = 1, executed_time = None,
           registered_time = Some 0, success = False\<rparr>]\<rparr>]"
    by (simp add: eval_defs float_simps)
  moreover have "transactions (committed (process_transaction 0 5 None ?t test_db)) =
     [\<lparr>cash_amount = Some (pyfloat_of_int (-100)), source_account_id = 1,
       destination_account_id = 2, txn_id = 1, executed_time = None,
       registered_time = Some 0, success = False\<rparr>]"
    by (simp add: eval_defs float_simps)
  ultimately show ?thesis by simp
qed

text \<open>
  With the source id \<^verbatim>\<open>2 ** 63\<close> the commit of line 46 raises and no row is
  persisted; with a NaN amount the row is persisted with the amount \<^verbatim>\<open>NULL\<close>.
\<close>

theorem process_transaction_one_row_counterexample:
  "response (process_transaction 0 5 None
      \<lparr>cash_amount = pyfloat_of_int 100, source_account_id = 2 ^ 63,
       destination_account_id = 2\<rparr> test_db) = Inl (Uncaught OverflowError) \<and>
   commits (process_transaction 0 5 None
      \<lparr>cash_amount = pyfloat_of_int 100, source_account_id = 2 ^ 63,
       destination_account_id = 2\<rparr> test_db) = [] \<and>
   transactions (committed (process_transaction 0 5 None
      \<lparr>cash_amount = pyfloat_of_int 100, source_account_id = 2 ^ 63,
       destination_account_id = 2\<rparr> test_db)) = transactions test_db \<and>
   map cash_amount (transactions (committed (process_transaction 0 5 None
      \<lparr>cash_amount = NaN, source_account_id = 1, destination_account_id = 2\<rparr> test_db))) =
     [None]"
  by (simp add: eval_defs store_float_def)



text \<open>A fault after the commit: the same 500, with the transfer committed.\<close>

lemma fault_after_commit:
  "response (process_transaction 0 5 (Some (RefreshFault ''connection lost''))
      \<lparr>cash_amount = pyfloat_of_int 200, source_account_id = 1, destination_account_id = 2\<rparr>
      test_db) = Inl (InternalError ''connection lost'') \<and>
   map available_cash (accounts (committed (process_transaction 0 5
      (Some (RefreshFault ''connection lost''))
      \<lparr>cash_amount = pyfloat_of_int 200, source_account_id = 1, destination_account_id = 2\<rparr>
      test_db))) =
     [Some (pyfloat_of_int 800), Some (pyfloat_of_int 700), Some (pyfloat_of_int 300)]"
  by (simp add: eval_defs float_simps)

text \<open>
  C5. The specification has every request with an amount of 0 or less rejected with
  \<^verbatim>\<open>Cash amount must be positive.\<close> and never executed. The guard of line 49 is
  \<^verbatim>\<open>cash_amount < 0\<close>: a request for the amount 0 from account 1 to account 2 of the
  test accounts passes it and executes, with \<open>success\<close> true.
\<close>

theorem zero_amount_is_not_rejected:
  "process_transaction 0 5 None
     \<lparr>cash_amount = Finite 0, source_account_id = 1, destination_account_id = 2\<rparr> test_db =
   \<lparr>response = Inr \<lparr>cash_amount = Some (Finite 0), source_account_id = 1,
        destination_account_id = 2, txn_id = 1, executed_time = Some 5,
        registered_time = Some 0, success = True\<rparr>,
    commits =
      [\<lparr>accounts = test_accounts,
        transactions =
          [\<lparr>cash_amount = Some (Finite 0), source_account_id = 1, destination_account_id = 2,
            txn_id = 1, executed_time = None, registered_time = Some 0, success = False\<rparr>]\<rparr>,
       \<lparr>accounts = test_accounts,
        transactions =
          [\<lparr>cash_amount = Some (Finite 0), source_account_id = 1, destination_account_id = 2,
            txn_id = 1, executed_time = Some 5, registered_time = Some 0, success = True\<rparr>]\<rparr>],
    committed =
      \<lparr>accounts = test_accounts,
       transactions =
         [\<lparr>cash_amount = Some (Finite 0), source_account_id = 1, destination_account_id = 2,
           txn_id = 1, executed_time = Some 5, registered_time = Some 0, success = True\<rparr>]\<rparr>,
    locked = [1, 2]\<rparr>"
  by (simp add: eval_defs float_simps store_float_def)




text \<open>
  C7. The specification has \<open>registered_time\<close> equal to the time at which the
  attempt was recorded. The \<open>registered_time\<close> of the row a call persists is the
  column default, the one value computed when \<^verbatim>\<open>models.py\<close> was loaded, whatever
  the clock says when the request is handled: two transfers handled at the readings 10
  and 20 by a process loaded at 0 are both registered at 0, though executed at 10 and
  at 20.
\<close>

theorem registered_time_is_column_default:
  "(transactions (committed (process_transaction rd now f t db)) = transactions db \<or>
    (\<exists>row. transactions (committed (process_transaction rd now f t db)) =
             transactions db @ [row] \<and>
           registered_time row = Some rd)) \<and>
   map registered_time (transactions (process_all 0
     [(10, None, \<lparr>cash_amount = pyfloat_of_int 200, source_account_id = 1,
         destination_account_id = 2\<rparr>),
      (20, None, \<lparr>cash_amount = pyfloat_of_int 50, source_account_id = 2,
         destination_account_id = 3\<rparr>)]
     test_db)) = [Some 0, Some 0] \<and>
   map executed_time (transactions (process_all 0
     [(10, None, \<lparr>cash_amount = pyfloat_of_int 200, source_account_id = 1,
         destination_account_id = 2\<rparr>),
      (20, None, \<lparr>cash_amount = pyfloat_of_int 50, source_account_id = 2,
         destination_account_id = 3\<rparr>)]
     test_db)) = [Some 10, Some 20]"
proof -
  let ?out = "process_transaction rd now f t db"
  let ?row = "new_transaction_row rd t db"
  consider (nothing) "committed ?out = db"
    | (kept) "committed ?out = db\<lparr>transactions := transactions db @ [?row]\<rparr>"
    | (moved) db2 where "committed ?out = db2"
      "transactions db2 =
         transactions db @ [?row\<lparr>success := True, executed_time := Some now\<rparr>]"
    using process_transaction_cases [of t rd now f db] by fastforce
  then have general: "transactions (committed ?out) = transactions db \<or>
      (\<exists>row. transactions (committed ?out) = transactions db @ [row] \<and>
             registered_time row = Some rd)"
  proof cases
    case nothing
    then show ?thesis by simp
  next
    case kept
    have "registered_time ?row = Some rd" by (simp add: new_transaction_row_def)
    with kept show ?thesis by simp
  next
    case moved
    have "registered_time (?row\<lparr>success := True, executed_time := Some now\<rparr>) = Some rd"
      by (simp add: new_transaction_row_def)
    with moved show ?thesis by simp
  qed
  have "map registered_time (transactions (process_all 0
     [(10, None, \<lparr>cash_amount = pyfloat_of_int 200, source_account_id = 1,
         destination_account_id = 2\<rparr>),
      (20, None, \<lparr>cash_amount = pyfloat_of_int 50, source_account_id = 2,
         destination_account_id = 3\<rparr>)]
     test_db)) = [Some 0, Some 0]"
    by (simp add: eval_defs float_simps)
  moreover have "map executed_time (transactions (process_all 0
     [(10, None, \<lparr>cash_amount = pyfloat_of_int 200, source_account_id = 1,
         destination_account_id = 2\<rparr>),
      (20, None, \<lparr>cash_amount = pyfloat_of_int 50, source_account_id = 2,
         destination_account_id = 3\<rparr>)]
     test_db)) = [Some 10, Some 20]"
    by (simp add: eval_defs float_simps)
  ultimately show ?thesis using general by simp
qed

text \<open>
  C8, as the source has it. When the amount is not negative and source and destination
  are two different existing accounts, the session locks the source row first and the
  destination row second, in the order of the request, whichever id is lower; the lower
  id is locked first only when it is the source.
\<close>

theorem process_transaction_lock_order:
  assumes pk: "primary_key (accounts db)"
    and amount: "fge (cash_amount t) (Finite 0)"
    and differ: "source_account_id t \<noteq> destination_account_id t"
    and src: "s \<in> set (accounts db)" "acc_id s = source_account_id t"
    and dst: "d \<in> set (accounts db)" "acc_id d = destination_account_id t"
  shows "locked (process_transaction rd now f t db) =
           [source_account_id t, destination_account_id t]"
proof -
  have qs: "query_account (source_account_id t) (accounts db) = [s]"
    and s64: "int64 (source_account_id t)"
    using primary_key_found [OF pk src(1)] src(2) by simp_all
  have qd: "query_account (destination_account_id t) (accounts db) = [d]"
    and d64: "int64 (destination_account_id t)"
    using primary_key_found [OF pk dst(1)] dst(2) by simp_all
  have "\<not> flt (cash_amount t) (Finite 0)"
    using amount by (rule fge_zero_not_neg)
  then show ?thesis
    using differ qs qd s64 d64
    by (simp add: process_transaction_def Let_def split: option.splits fault.splits)
qed

text \<open>
  From account 3 to account 1, and from account 1 to account 3.
\<close>

theorem process_transaction_lock_order_witness:
  "locked (process_transaction 0 5 None
     \<lparr>cash_amount = pyfloat_of_int 100, source_account_id = 3, destination_account_id = 1\<rparr>
     test_db) = [3, 1] \<and>
   locked (process_transaction 0 5 None
     \<lparr>cash_amount = pyfloat_of_int 100, source_account_id = 1, destination_account_id = 3\<rparr>
     test_db) = [1, 3]"
proof -
  have pk: "primary_key (accounts test_db)"
    by (simp add: eval_defs)
  have "locked (process_transaction 0 5 None
     \<lparr>cash_amount = pyfloat_of_int 100, source_account_id = 3, destination_account_id = 1\<rparr>
     test_db) = [3, 1]"
    using process_transaction_lock_order [OF pk,
        of "\<lparr>cash_amount = pyfloat_of_int 100, source_account_id = 3,
             destination_account_id = 1\<rparr>"
           "\<lparr>name = ''Charlie'', available_cash = Some (pyfloat_of_int 300), acc_id = 3\<rparr>"
           "\<lparr>name = ''Alice'', available_cash = Some (pyfloat_of_int 1000), acc_id = 1\<rparr>"
           0 5 None]
    by (simp add: test_db_def test_accounts_def float_simps)
  moreover have "locked (process_transaction 0 5 None
     \<lparr>cash_amount = pyfloat_of_int 100, source_account_id = 1, destination_account_id = 3\<rparr>
     test_db) = [1, 3]"
    using process_transaction_lock_order [OF pk,
        of "\<lparr>cash_amount = pyfloat_of_int 100, source_account_id = 1,
             destination_account_id = 3\<rparr>"
           "\<lparr>name = ''Alice'', available_cash = Some (pyfloat_of_int 1000), acc_id = 1\<rparr>"
           "\<lparr>name = ''Charlie'', available_cash = Some (pyfloat_of_int 300), acc_id = 3\<rparr>"
           0 5 None]
    by (simp add: test_db_def test_accounts_def float_simps)
  ultimately show ?thesis by simp
qed

text \<open>
  A transfer from account 2 to account 1 locks the row of account 2 first: the locks
  are not taken in ascending order of the ids.
\<close>

theorem process_transaction_lock_order_counterexample:
  "locked (process_transaction 0 5 None
     \<lparr>cash_amount = pyfloat_of_int 100, source_account_id = 2, destination_account_id = 1\<rparr>
     test_db) = [2, 1] \<and>
   \<not> sorted (locked (process_transaction 0 5 None
     \<lparr>cash_amount = pyfloat_of_int 100, source_account_id = 2, destination_account_id = 1\<rparr>
     test_db))"
  by (simp add: eval_defs float_simps)



text \<open>
  C10. \<^verbatim>\<open>create_account\<close> checks nothing: a request with an \<open>available_cash\<close>
  below 0 is answered with the request itself, and the committed account table gets
  a row with that negative balance, so the tables no longer have all balances at or
  above 0.
\<close>

theorem create_account_no_validation:
  assumes "flt (available_cash account) (Finite 0)"
  shows "fst (create_account account db) = account \<and>
         accounts (snd (create_account account db)) =
           accounts db @
             [\<lparr>name = name account, available_cash = Some (available_cash account),
               acc_id = next_id (map acc_id (accounts db))\<rparr>] \<and>
         transactions (snd (create_account account db)) = transactions db \<and>
         \<not> nonneg_balances (snd (create_account account db))"
proof -
  from assms have "available_cash account \<noteq> NaN" by (cases "available_cash account") auto
  then have "store_float (available_cash account) = Some (available_cash account)"
    by (rule store_float_Some)
  moreover from assms have "\<not> fge (available_cash account) (Finite 0)"
    by (rule flt_not_fge)
  ultimately show ?thesis
    by (simp add: create_account_def nonneg_balances_def)
qed

text \<open>
  An account with -50 added to the test accounts.
\<close>

theorem create_account_no_validation_witness:
  "nonneg_balances test_db \<and>
   flt (available_cash \<lparr>name = ''Eve'', available_cash = pyfloat_of_int (-50)\<rparr>) (Finite 0) \<and>
   accounts (snd (create_account \<lparr>name = ''Eve'', available_cash = pyfloat_of_int (-50)\<rparr>
      test_db)) =
     test_accounts @
       [\<lparr>name = ''Eve'', available_cash = Some (pyfloat_of_int (-50)), acc_id = 4\<rparr>] \<and>
   \<not> nonneg_balances
       (snd (create_account \<lparr>name = ''Eve'', available_cash = pyfloat_of_int (-50)\<rparr> test_db))"
proof -
  have negative:
    "flt (available_cash \<lparr>name = ''Eve'', available_cash = pyfloat_of_int (-50)\<rparr>) (Finite 0)"
    by (simp add: float_simps)
  have before: "nonneg_balances test_db"
    by (simp add: nonneg_balances_def test_db_def test_accounts_def float_simps)
  show ?thesis
    using negative before create_account_no_validation [OF negative, of test_db]
    by (simp add: test_db_def test_accounts_def)
qed

end
